theory Spec2Isabelle
  imports Main "HOL-Library.AList"
begin

section \<open>JavaScript values, errors and the host environment\<close>

text \<open>
  The module \<^verbatim>\<open>combine-reducers-immutable.js\<close> is embedded function by function.
  Values are first-order: \<open>Obj\<close> is a plain data object (its own enumerable properties in
  enumeration order), \<open>IMap\<close> a persistent Immutable Map with string keys (its entries in
  iteration order), \<open>MMap\<close> an Immutable Map in mutable mode (what \<^verbatim>\<open>asMutable\<close> returns
  and what the callback of \<^verbatim>\<open>withMutations\<close> receives): an object of the world's store,
  named by its address. Numbers are integers. Functions are not values of \<open>jsval\<close>; the
  only functions the module handles are the reducers, which have a type of their own.

  Scope: the keys of an Immutable Map are strings, and a Map iterates in insertion order
  (as Immutable does for a small Map); other Immutable collections are not values of the
  model; an object has no getters and no \<^verbatim>\<open>toString\<close> of its own that fails; a reducer is
  an ordinary or arrow function with the standard properties of a function object; no
  slice is named \<^verbatim>\<open>hasOwnProperty\<close>. A persistent Map is a value: what the model says of it
  is about its content, not about the identity of the object that carries it.
\<close>

datatype jsval =
    Undefined
  | Null
  | Bool bool
  | Num int
  | Str string
  | Obj "(string \<times> jsval) list"
  | IMap "(string \<times> jsval) list"
  | MMap nat

text \<open>
  What a \<^verbatim>\<open>throw\<close> carries: an \<^verbatim>\<open>Error\<close> with its message, the engine's
  \<^verbatim>\<open>TypeError\<close> (its message is engine specific and left out), or any other value, which
  a reducer may throw. The first two are objects.
\<close>

datatype error = Error string | TypeError | Thrown jsval

text \<open>
  A reducer is a function of the slice state and the action that returns a value or
  throws.
\<close>

type_synonym reducer = "jsval \<Rightarrow> jsval \<Rightarrow> error + jsval"

text \<open>
  The argument of \<^verbatim>\<open>combineReducers\<close>: \<^verbatim>\<open>null\<close> or \<^verbatim>\<open>undefined\<close>, or any other value,
  seen through its own enumerable properties (what \<^verbatim>\<open>Object.keys\<close> lists, in that
  order), each holding a function or some other value.
\<close>

datatype propval = Fn reducer | Val jsval

datatype reducers_arg = NullOrUndefined | Object "(string \<times> propval) list"

text \<open>
  The host: \<open>process_NODE_ENV\<close> is \<open>None\<close> when there is no global \<^verbatim>\<open>process\<close>, else
  the value of \<^verbatim>\<open>process.env.NODE_ENV\<close>; \<open>console_error\<close> tells whether
  \<^verbatim>\<open>console.error\<close> is a function; \<open>Math_random36 n\<close> is what the \<open>n\<close>-th evaluation of
  \<^verbatim>\<open>Math.random().toString(36)\<close> gives; \<open>object_toString\<close> is \<^verbatim>\<open>toString()\<close> of a
  value whose rendering is left to the host: an object, or a number from \<open>10\<^sup>2\<^sup>1\<close> on,
  which JavaScript prints with an exponent.
\<close>

record host =
  process_NODE_ENV :: "jsval option"
  console_error :: bool
  Math_random36 :: "nat \<Rightarrow> string"
  object_toString :: "jsval \<Rightarrow> string"

text \<open>
  The effects of the module: the messages handed to \<^verbatim>\<open>console.error\<close>, the reducer
  applications performed (slice name, slice state, action), both oldest first, the
  number of random numbers drawn so far, and the entries of the Maps in mutable mode,
  by address.
\<close>

record world =
  console :: "string list"
  calls :: "(string \<times> jsval \<times> jsval) list"
  draws :: nat
  mmaps :: "nat \<Rightarrow> (string \<times> jsval) list"

definition truthy :: "jsval \<Rightarrow> bool" where
  "truthy v = (case v of
       Undefined \<Rightarrow> False
     | Null \<Rightarrow> False
     | Bool b \<Rightarrow> b
     | Num n \<Rightarrow> n \<noteq> 0
     | Str s \<Rightarrow> s \<noteq> []
     | Obj ps \<Rightarrow> True
     | IMap m \<Rightarrow> True
     | MMap a \<Rightarrow> True)"

text \<open>The truthiness of what was thrown.\<close>

definition error_truthy :: "error \<Rightarrow> bool" where
  "error_truthy e = (case e of Error message \<Rightarrow> True | TypeError \<Rightarrow> True | Thrown v \<Rightarrow> truthy v)"

text \<open>
  \<^verbatim>\<open>v.name\<close> for a value that is neither \<^verbatim>\<open>null\<close> nor \<^verbatim>\<open>undefined\<close> (the module reads
  \<^verbatim>\<open>action.type\<close> only behind \<^verbatim>\<open>action &&\<close>): a data object gives its own property,
  anything else has no such property.
\<close>

definition get_prop :: "jsval \<Rightarrow> string \<Rightarrow> jsval" where
  "get_prop v name = (case v of
       Obj ps \<Rightarrow> (case map_of ps name of None \<Rightarrow> Undefined | Some x \<Rightarrow> x)
     | _ \<Rightarrow> Undefined)"

fun show_nat :: "nat \<Rightarrow> string" where
  "show_nat n =
     (if n < 10 then [''0123456789'' ! n]
      else show_nat (n div 10) @ [''0123456789'' ! (n mod 10)])"

declare show_nat.simps [simp del]

definition show_int :: "int \<Rightarrow> string" where
  "show_int i = (if i < 0 then ''-'' @ show_nat (nat (- i)) else show_nat (nat i))"

text \<open>
  \<^verbatim>\<open>v.toString()\<close>; the module calls it on a truthy value only, so the first two cases
  are never reached. An integer below \<open>10\<^sup>2\<^sup>1\<close> in magnitude prints as its decimal.
\<close>

definition toString :: "host \<Rightarrow> jsval \<Rightarrow> string" where
  "toString h v = (case v of
       Undefined \<Rightarrow> ''undefined''
     | Null \<Rightarrow> ''null''
     | Bool b \<Rightarrow> (if b then ''true'' else ''false'')
     | Num n \<Rightarrow> (if \<bar>n\<bar> < 10 ^ 21 then show_int n else object_toString h v)
     | Str s \<Rightarrow> s
     | Obj ps \<Rightarrow> object_toString h v
     | IMap m \<Rightarrow> object_toString h v
     | MMap a \<Rightarrow> object_toString h v)"

text \<open>\<^verbatim>\<open>xs.join(sep)\<close> on strings.\<close>

fun join :: "string \<Rightarrow> string list \<Rightarrow> string" where
  "join sep [] = []"
| "join sep [x] = x"
| "join sep (x # y # ys) = x @ sep @ join sep (y # ys)"

text \<open>
  The class name that \<^verbatim>\<open>({}).toString.call(v).match(/\s([a-z|A-Z]+)/)[1]\<close> extracts from
  \<^verbatim>\<open>[object Name]\<close>.
\<close>

definition class_name :: "jsval \<Rightarrow> string" where
  "class_name v = (case v of
       Undefined \<Rightarrow> ''Undefined''
     | Null \<Rightarrow> ''Null''
     | Bool b \<Rightarrow> ''Boolean''
     | Num n \<Rightarrow> ''Number''
     | Str s \<Rightarrow> ''String''
     | Obj ps \<Rightarrow> ''Object''
     | IMap m \<Rightarrow> ''Object''
     | MMap a \<Rightarrow> ''Object'')"

text \<open>\<^verbatim>\<open>a > b\<close>, used by the module on a number or \<^verbatim>\<open>undefined\<close> against a number;
  \<^verbatim>\<open>undefined\<close> converts to NaN, and every comparison with NaN is false.\<close>

fun js_gt :: "jsval \<Rightarrow> jsval \<Rightarrow> bool" where
  "js_gt (Num a) (Num b) = (b < a)"
| "js_gt _ _ = False"

subsection \<open>The Immutable Map operations the module uses\<close>

text \<open>\<^verbatim>\<open>Immutable.Map.isMap\<close>, \<^verbatim>\<open>get\<close>, \<^verbatim>\<open>set\<close> and \<^verbatim>\<open>keySeq\<close>.\<close>

definition isMap :: "jsval \<Rightarrow> bool" where
  "isMap v = (case v of IMap m \<Rightarrow> True | MMap a \<Rightarrow> True | _ \<Rightarrow> False)"

text \<open>The entries of a value that is a Map, as they are in a world.\<close>

definition entries_of :: "world \<Rightarrow> jsval \<Rightarrow> (string \<times> jsval) list option" where
  "entries_of w v = (case v of IMap m \<Rightarrow> Some m | MMap a \<Rightarrow> Some (mmaps w a) | _ \<Rightarrow> None)"

definition imap_get :: "(string \<times> jsval) list \<Rightarrow> string \<Rightarrow> jsval" where
  "imap_get m k = (case map_of m k of None \<Rightarrow> Undefined | Some v \<Rightarrow> v)"

definition imap_set :: "(string \<times> jsval) list \<Rightarrow> string \<Rightarrow> jsval \<Rightarrow> (string \<times> jsval) list" where
  "imap_set m k v = AList.update k v m"

definition keySeq :: "(string \<times> jsval) list \<Rightarrow> string list" where
  "keySeq m = map fst m"

subsection \<open>Inlined helpers of the module\<close>

definition ActionTypes_INIT :: string where
  "ActionTypes_INIT = ''@@redux/INIT''"

text \<open>
  \<^verbatim>\<open>warning(message)\<close>: the message goes to \<^verbatim>\<open>console.error\<close> when there is one; the
  error thrown afterwards is caught on the spot.
\<close>

definition warning :: "host \<Rightarrow> string \<Rightarrow> world \<Rightarrow> world" where
  "warning h message w =
     (if console_error h then w\<lparr>console := console w @ [message]\<rparr> else w)"

definition NODE_ENV :: "host \<Rightarrow> jsval" where
  "NODE_ENV h = (case process_NODE_ENV h of None \<Rightarrow> Str ''development'' | Some v \<Rightarrow> v)"

text \<open>The test \<^verbatim>\<open>NODE_ENV !== 'production'\<close>.\<close>

definition diagnostic :: "host \<Rightarrow> bool" where
  "diagnostic h = (NODE_ENV h \<noteq> Str ''production'')"

text \<open>Applying a reducer, recorded in the world.\<close>

definition call :: "string \<Rightarrow> reducer \<Rightarrow> jsval \<Rightarrow> jsval \<Rightarrow> world \<Rightarrow> (error + jsval) \<times> world" where
  "call name r s a w = (r s a, w\<lparr>calls := calls w @ [(name, s, a)]\<rparr>)"

section \<open>getUndefinedStateErrorMessage\<close>

definition getUndefinedStateErrorMessage :: "host \<Rightarrow> string \<Rightarrow> jsval \<Rightarrow> string" where
  \<open>getUndefinedStateErrorMessage h key action =
     (let actionType = (if truthy action then get_prop action ''type'' else action);
          actionName = (if truthy actionType then ''"'' @ toString h actionType @ ''"''
                        else ''an action'')
      in ''Given action '' @ actionName @ '', reducer "'' @ key @ ''" returned undefined. '' @
         ''To ignore an action, you must explicitly return the previous state.'')\<close>

section \<open>getUnexpectedStateShapeWarningMessage\<close>

text \<open>
  \<^verbatim>\<open>unexpectedKeyCache\<close> is \<open>None\<close> while the variable is \<^verbatim>\<open>undefined\<close> (production), else
  the own keys of the object, every one of them set to \<^verbatim>\<open>true\<close>. The object starts as
  \<^verbatim>\<open>{}\<close>, so reading a property that \<^verbatim>\<open>Object.prototype\<close> has is truthy as well; reading a
  property of \<^verbatim>\<open>undefined\<close> throws.
\<close>

definition Object_prototype_keys :: "string list" where
  "Object_prototype_keys =
     [''constructor'', ''__defineGetter__'', ''__defineSetter__'', ''hasOwnProperty'',
      ''__lookupGetter__'', ''__lookupSetter__'', ''isPrototypeOf'', ''propertyIsEnumerable'',
      ''toString'', ''valueOf'', ''__proto__'', ''toLocaleString'']"

definition cache_read :: "string list option \<Rightarrow> string \<Rightarrow> error + bool" where
  "cache_read cache key = (case cache of
       None \<Rightarrow> Inl TypeError
     | Some own \<Rightarrow> Inr (key \<in> set own \<or> key \<in> set Object_prototype_keys))"

definition cache_set :: "string list option \<Rightarrow> string \<Rightarrow> string list option" where
  "cache_set cache key = (case cache of
       None \<Rightarrow> None
     | Some own \<Rightarrow> Some (if key \<in> set own then own else own @ [key]))"

text \<open>
  \<^verbatim>\<open>reducers.hasOwnProperty(key)\<close>, for a reducer object that has no slice of the name
  \<^verbatim>\<open>hasOwnProperty\<close> itself.
\<close>

definition hasOwnProperty :: "(string \<times> reducer) list \<Rightarrow> string \<Rightarrow> bool" where
  "hasOwnProperty reducers key = (key \<in> set (map fst reducers))"

text \<open>
  The predicate of the filter,
  \<^verbatim>\<open>key => !reducers.hasOwnProperty(key) && !unexpectedKeyCache[key]\<close>; the cache is only
  read when the first conjunct holds.
\<close>

definition unexpectedKey :: "(string \<times> reducer) list \<Rightarrow> string list option \<Rightarrow> string \<Rightarrow> error + bool" where
  "unexpectedKey reducers cache key =
     (if hasOwnProperty reducers key then Inr False
      else (case cache_read cache key of Inl e \<Rightarrow> Inl e | Inr b \<Rightarrow> Inr (\<not> b)))"

text \<open>
  \<^verbatim>\<open>inputState.keySeq().filter(...)\<close> is a lazy Seq of Immutable: \<^verbatim>\<open>filter\<close> runs nothing,
  and each traversal of the result runs the predicate again, on the cache as it is then.
  \<^verbatim>\<open>unexpectedKeys.forEach(key => { unexpectedKeyCache[key] = true })\<close> is such a
  traversal, and its callback writes the cache the predicate reads.
\<close>

fun unexpectedKeys_forEach ::
  "(string \<times> reducer) list \<Rightarrow> string list \<Rightarrow> string list option \<Rightarrow> error + string list option" where
  "unexpectedKeys_forEach reducers [] cache = Inr cache"
| "unexpectedKeys_forEach reducers (key # keys) cache =
     (case unexpectedKey reducers cache key of
        Inl e \<Rightarrow> Inl e
      | Inr b \<Rightarrow> unexpectedKeys_forEach reducers keys (if b then cache_set cache key else cache))"

text \<open>The elements a later traversal (\<^verbatim>\<open>join\<close>) of the same Seq sees.\<close>

fun unexpectedKeys_elements ::
  "(string \<times> reducer) list \<Rightarrow> string list \<Rightarrow> string list option \<Rightarrow> error + string list" where
  "unexpectedKeys_elements reducers [] cache = Inr []"
| "unexpectedKeys_elements reducers (key # keys) cache =
     (case unexpectedKey reducers cache key of
        Inl e \<Rightarrow> Inl e
      | Inr b \<Rightarrow>
          (case unexpectedKeys_elements reducers keys cache of
             Inl e \<Rightarrow> Inl e
           | Inr rest \<Rightarrow> Inr (if b then key # rest else rest)))"

text \<open>
  \<^verbatim>\<open>unexpectedKeys.length\<close>. An Immutable Seq is not an array: its element count is
  \<^verbatim>\<open>size\<close> (or \<^verbatim>\<open>count()\<close>), and a filtered lazy Seq does not know its \<^verbatim>\<open>size\<close>. Immutable 3
  forwards \<^verbatim>\<open>length\<close> to that unknown \<^verbatim>\<open>size\<close>, Immutable 4 has no \<^verbatim>\<open>length\<close> at all; the
  property read gives \<^verbatim>\<open>undefined\<close> whatever the elements are.
\<close>

definition unexpectedKeys_length :: "string list \<Rightarrow> jsval" where
  "unexpectedKeys_length keys = Undefined"

text \<open>
  The function returns the message (or \<open>None\<close> for \<^verbatim>\<open>undefined\<close>) and the cache as it
  leaves it. The world is read only, for the entries of a Map in mutable mode.
\<close>

definition getUnexpectedStateShapeWarningMessage ::
  "world \<Rightarrow> jsval \<Rightarrow> (string \<times> reducer) list \<Rightarrow> jsval \<Rightarrow> string list option
     \<Rightarrow> error + (string option \<times> string list option)" where
  \<open>getUnexpectedStateShapeWarningMessage w inputState reducers action unexpectedKeyCache =
     (let reducerKeys = map fst reducers;
          argumentName =
            (if truthy action \<and> get_prop action ''type'' = Str ActionTypes_INIT
             then ''preloadedState argument passed to createStore''
             else ''previous state received by the reducer'')
      in if length reducerKeys = 0 then
           Inr (Some (''Store does not have a valid reducer. Make sure the argument passed '' @
                      ''to combineReducers is an object whose values are reducers.''),
                unexpectedKeyCache)
         else (case entries_of w inputState of
           Some m \<Rightarrow>
             (case unexpectedKeys_forEach reducers (keySeq m) unexpectedKeyCache of
                Inl e \<Rightarrow> Inl e
              | Inr cache' \<Rightarrow>
                  if js_gt (unexpectedKeys_length (keySeq m)) (Num 0) then
                    (case unexpectedKeys_elements reducers (keySeq m) cache' of
                       Inl e \<Rightarrow> Inl e
                     | Inr unexpectedKeys \<Rightarrow>
                         Inr (Some (''Unexpected '' @
                                (if js_gt (unexpectedKeys_length (keySeq m)) (Num 1)
                                 then ''keys'' else ''key'') @ '' '' @
                                ''"'' @ join ''", "'' unexpectedKeys @ ''" found in '' @
                                argumentName @ ''. '' @
                                ''Expected to find one of the known reducer keys instead: '' @
                                ''"'' @ join ''", "'' reducerKeys @
                                ''". Unexpected keys will be ignored.''),
                              cache'))
                  else Inr (None, cache'))
         | None \<Rightarrow>
             Inr (Some (''The '' @ argumentName @ '' has unexpected type of "'' @
                        class_name inputState @
                        ''". Expected argument to be an Immutable Map with the following '' @
                        ''keys: "'' @ join ''", "'' reducerKeys @ ''"''),
                  unexpectedKeyCache)))\<close>

section \<open>assertReducerSanity\<close>

definition init_action :: jsval where
  "init_action = Obj [(''type'', Str ActionTypes_INIT)]"

text \<open>
  The type of the random probe, from the string \<^verbatim>\<open>Math.random().toString(36)\<close>:
  \<^verbatim>\<open>substring(7)\<close>, \<^verbatim>\<open>split('')\<close>, \<^verbatim>\<open>join('.')\<close>.
\<close>

definition probe_type :: "string \<Rightarrow> string" where
  "probe_type r = ''@@redux/PROBE_UNKNOWN_ACTION_'' @ join ''.'' (map (\<lambda>c. [c]) (drop 7 r))"

definition probe_action :: "string \<Rightarrow> jsval" where
  "probe_action r = Obj [(''type'', Str (probe_type r))]"

definition init_error :: "string \<Rightarrow> error" where
  \<open>init_error reducerName = Error (
     ''Reducer "'' @ reducerName @ ''" returned undefined during initialization. '' @
     ''If the state passed to the reducer is undefined, you must '' @
     ''explicitly return the initial state. The initial state may '' @
     ''not be undefined.'')\<close>

definition probe_error :: "string \<Rightarrow> error" where
  \<open>probe_error reducerName = Error (
     ''Reducer "'' @ reducerName @ ''" returned undefined when probed with a random type. '' @
     ''Don't try to handle '' @ ActionTypes_INIT @ '' or other actions in "redux/*" '' @
     ''namespace. They are considered private. Instead, you must return the '' @
     ''current state for any unknown actions, unless it is undefined, '' @
     ''in which case you must return the initial state, regardless of the '' @
     ''action type. The initial state may not be undefined.'')\<close>

text \<open>
  The loop over \<^verbatim>\<open>Object.keys(reducers)\<close>. The result is the error thrown, \<open>None\<close> when
  the function returns. Calling a property that is not there throws a TypeError.
\<close>

fun assertReducerSanity_loop ::
  "host \<Rightarrow> (string \<times> reducer) list \<Rightarrow> string list \<Rightarrow> world \<Rightarrow> error option \<times> world" where
  "assertReducerSanity_loop h reducers [] w = (None, w)"
| "assertReducerSanity_loop h reducers (reducerName # names) w =
     (case map_of reducers reducerName of
        None \<Rightarrow> (Some TypeError, w)
      | Some reducer \<Rightarrow>
          (case call reducerName reducer Undefined init_action w of
             (Inl e, w1) \<Rightarrow> (Some e, w1)
           | (Inr initialState, w1) \<Rightarrow>
               if initialState = Undefined then (Some (init_error reducerName), w1)
               else
                 (let r = Math_random36 h (draws w1);
                      w2 = w1\<lparr>draws := Suc (draws w1)\<rparr>
                  in case call reducerName reducer Undefined (probe_action r) w2 of
                       (Inl e, w3) \<Rightarrow> (Some e, w3)
                     | (Inr probed, w3) \<Rightarrow>
                         if probed = Undefined then (Some (probe_error reducerName), w3)
                         else assertReducerSanity_loop h reducers names w3)))"

definition assertReducerSanity ::
  "host \<Rightarrow> (string \<times> reducer) list \<Rightarrow> world \<Rightarrow> error option \<times> world" where
  "assertReducerSanity h reducers w = assertReducerSanity_loop h reducers (map fst reducers) w"

section \<open>combineReducers\<close>

text \<open>
  What \<^verbatim>\<open>combineReducers\<close> returns is the function \<^verbatim>\<open>combination\<close> together with the
  variables it closes over.
\<close>

record closure =
  finalReducers :: "(string \<times> reducer) list"
  finalReducerNames :: "string list"
  unexpectedKeyCache :: "string list option"
  sanityError :: "error option"

text \<open>
  The first loop: \<^verbatim>\<open>reducers[reducerName]\<close> of a missing property is \<^verbatim>\<open>undefined\<close>. The
  assignment \<^verbatim>\<open>finalReducers[reducerName] = ...\<close> replaces the own property or appends
  it, with two exceptions that \<^verbatim>\<open>finalReducers\<close>, born \<^verbatim>\<open>{}\<close>, inherits. The name
  \<^verbatim>\<open>__proto__\<close> is an accessor of \<^verbatim>\<open>Object.prototype\<close>: the assignment makes the function
  the prototype of \<^verbatim>\<open>finalReducers\<close> and adds no property. From then on (the flag
  \<open>proto\<close>) \<^verbatim>\<open>finalReducers\<close> inherits from a function object, whose \<^verbatim>\<open>length\<close> and
  \<^verbatim>\<open>name\<close> are read-only and whose \<^verbatim>\<open>arguments\<close> and \<^verbatim>\<open>caller\<close> are read-only or
  throwing accessors: assigning one of these names throws a TypeError in the strict code
  of a module.
\<close>

definition function_readonly_keys :: "string list" where
  "function_readonly_keys = [''length'', ''name'', ''arguments'', ''caller'']"

fun collect ::
  "host \<Rightarrow> (string \<times> propval) list \<Rightarrow> string list \<Rightarrow> (string \<times> reducer) list \<Rightarrow> bool \<Rightarrow> world
     \<Rightarrow> (error + (string \<times> reducer) list) \<times> world" where
  "collect h reducers [] final proto w = (Inr final, w)"
| \<open>collect h reducers (reducerName # names) final proto w =
     (let v = (case map_of reducers reducerName of None \<Rightarrow> Val Undefined | Some p \<Rightarrow> p);
          w1 = (case v of
                  Val Undefined \<Rightarrow>
                    if diagnostic h
                    then warning h (''No reducer provided for key "'' @ reducerName @ ''"'') w
                    else w
                | _ \<Rightarrow> w)
      in case v of
           Fn r \<Rightarrow>
             if reducerName = ''__proto__'' then collect h reducers names final True w1
             else if proto \<and> reducerName \<in> set function_readonly_keys then (Inl TypeError, w1)
             else collect h reducers names (AList.update reducerName r final) proto w1
         | Val x \<Rightarrow> collect h reducers names final proto w1)\<close>

text \<open>
  \<^verbatim>\<open>Object.keys\<close> throws on \<^verbatim>\<open>null\<close> and \<^verbatim>\<open>undefined\<close>. Only the call of
  \<^verbatim>\<open>assertReducerSanity\<close> stands in a \<^verbatim>\<open>try\<close>; what it throws is kept in \<^verbatim>\<open>sanityError\<close>.
\<close>

definition combineReducers :: "host \<Rightarrow> reducers_arg \<Rightarrow> world \<Rightarrow> (error + closure) \<times> world" where
  "combineReducers h reducers w = (case reducers of
       NullOrUndefined \<Rightarrow> (Inl TypeError, w)
     | Object ps \<Rightarrow>
         (case collect h ps (map fst ps) [] False w of
            (Inl e, w1) \<Rightarrow> (Inl e, w1)
          | (Inr final, w1) \<Rightarrow>
              (case assertReducerSanity h final w1 of (err, w2) \<Rightarrow>
                 (Inr \<lparr> finalReducers = final,
                        finalReducerNames = map fst final,
                        unexpectedKeyCache = (if diagnostic h then Some [] else None),
                        sanityError = err \<rparr>, w2))))"

section \<open>combination\<close>

text \<open>
  The callback of \<^verbatim>\<open>withMutations\<close>: the loop over \<^verbatim>\<open>finalReducerNames\<close> on the transient
  Map. A throw leaves the loop at once. The result is the error thrown (if any), the
  entries of the transient Map as the loop leaves it, and the world.
\<close>

fun combination_loop ::
  "host \<Rightarrow> (string \<times> reducer) list \<Rightarrow> jsval \<Rightarrow> string list \<Rightarrow> (string \<times> jsval) list \<Rightarrow> world
     \<Rightarrow> error option \<times> (string \<times> jsval) list \<times> world" where
  "combination_loop h reducers action [] transientState w = (None, transientState, w)"
| "combination_loop h reducers action (reducerName # names) transientState w =
     (case map_of reducers reducerName of
        None \<Rightarrow> (Some TypeError, transientState, w)
      | Some reducer \<Rightarrow>
          (let currentStateForReducer = imap_get transientState reducerName
           in case call reducerName reducer currentStateForReducer action w of
                (Inl e, w1) \<Rightarrow> (Some e, transientState, w1)
              | (Inr nextStateForReducer, w1) \<Rightarrow>
                  if nextStateForReducer = Undefined
                  then (Some (Error (getUndefinedStateErrorMessage h reducerName action)),
                        transientState, w1)
                  else combination_loop h reducers action names
                         (imap_set transientState reducerName nextStateForReducer) w1))"

text \<open>
  \<^verbatim>\<open>state.withMutations(...)\<close>. A persistent Map runs the callback on a transient copy
  and gives the copy back as a persistent Map; when the callback throws, the copy is
  lost. A Map in mutable mode is its own transient (\<^verbatim>\<open>asMutable\<close> returns the receiver):
  the callback writes the receiver itself, which is what is returned, and what was
  written before a throw stays written. \<^verbatim>\<open>null\<close>, a primitive or a data object has no such
  method, and the call throws a TypeError.
\<close>

definition withMutations ::
  "jsval \<Rightarrow> ((string \<times> jsval) list \<Rightarrow> world \<Rightarrow> error option \<times> (string \<times> jsval) list \<times> world)
     \<Rightarrow> world \<Rightarrow> (error + jsval) \<times> world" where
  "withMutations state f w = (case state of
       IMap m \<Rightarrow>
         (case f m w of
            (Some e, m', w1) \<Rightarrow> (Inl e, w1)
          | (None, m', w1) \<Rightarrow> (Inr (IMap m'), w1))
     | MMap a \<Rightarrow>
         (case f (mmaps w a) w of
            (Some e, m', w1) \<Rightarrow> (Inl e, w1\<lparr>mmaps := (mmaps w1)(a := m')\<rparr>)
          | (None, m', w1) \<Rightarrow> (Inr (MMap a), w1\<lparr>mmaps := (mmaps w1)(a := m')\<rparr>))
     | _ \<Rightarrow> (Inl TypeError, w))"

text \<open>
  The block \<^verbatim>\<open>if (NODE_ENV !== 'production') { ... }\<close> of \<^verbatim>\<open>combination\<close>: the closure with
  the cache as the block leaves it, and the world. A string is truthy when it is not
  empty.
\<close>

definition shape_warning :: "host \<Rightarrow> closure \<Rightarrow> jsval \<Rightarrow> jsval \<Rightarrow> world \<Rightarrow> error + closure \<times> world" where
  "shape_warning h c state action w =
     (if diagnostic h then
        (case getUnexpectedStateShapeWarningMessage w state (finalReducers c) action
                (unexpectedKeyCache c) of
           Inl e \<Rightarrow> Inl e
         | Inr (warningMessage, cache') \<Rightarrow>
             Inr (c\<lparr>unexpectedKeyCache := cache'\<rparr>,
                  (case warningMessage of
                     None \<Rightarrow> w
                   | Some message \<Rightarrow> if message \<noteq> [] then warning h message w else w)))
      else Inr (c, w))"

text \<open>
  The test \<^verbatim>\<open>if (sanityError)\<close>: something was caught, and it is truthy. A falsy value
  that a reducer threw when probed is caught and never thrown again.
\<close>

definition sanityError_truthy :: "closure \<Rightarrow> bool" where
  "sanityError_truthy c = (case sanityError c of None \<Rightarrow> False | Some e \<Rightarrow> error_truthy e)"

text \<open>
  One invocation of the combined reducer: the result (or the error thrown), the closure
  with its cache as the invocation leaves it, and the world. The default parameter
  replaces \<^verbatim>\<open>undefined\<close> only.
\<close>

definition combination ::
  "host \<Rightarrow> closure \<Rightarrow> jsval \<Rightarrow> jsval \<Rightarrow> world \<Rightarrow> (error + jsval) \<times> closure \<times> world" where
  "combination h c state0 action w =
     (let state = (if state0 = Undefined then IMap [] else state0)
      in case (if sanityError_truthy c then sanityError c else None) of
           Some e \<Rightarrow> (Inl e, c, w)
         | None \<Rightarrow>
             (case shape_warning h c state action w of
                Inl e \<Rightarrow> (Inl e, c, w)
              | Inr (c1, w1) \<Rightarrow>
                  (case withMutations state
                          (combination_loop h (finalReducers c) action (finalReducerNames c)) w1 of
                     (r, w2) \<Rightarrow> (r, c1, w2))))"

section \<open>The reducers of the specification's scenario\<close>

text \<open>
  \<^verbatim>\<open>counter: (s = 0, a) => a.type === 'INC' ? s + 1 : s\<close> and
  \<^verbatim>\<open>name: (s = '', a) => s\<close>. Reading \<^verbatim>\<open>a.type\<close> of \<^verbatim>\<open>null\<close> or \<^verbatim>\<open>undefined\<close> throws;
  \<^verbatim>\<open>s + 1\<close> adds numbers and otherwise converts as JavaScript does.
\<close>

definition counter :: "host \<Rightarrow> reducer" where
  "counter h s0 a =
     (let s = (if s0 = Undefined then Num 0 else s0)
      in if a = Undefined \<or> a = Null then Inl TypeError
         else if get_prop a ''type'' = Str ''INC''
              then Inr (case s of
                          Num n \<Rightarrow> Num (n + 1)
                        | Null \<Rightarrow> Num 1
                        | Bool b \<Rightarrow> Num (if b then 2 else 1)
                        | Str x \<Rightarrow> Str (x @ ''1'')
                        | _ \<Rightarrow> Str (object_toString h s @ ''1''))
              else Inr s)"

definition name_reducer :: reducer where
  "name_reducer s0 a = Inr (if s0 = Undefined then Str [] else s0)"

definition scenario_reducers :: "host \<Rightarrow> reducers_arg" where
  "scenario_reducers h = Object [(''counter'', Fn (counter h)), (''name'', Fn name_reducer)]"

definition INC :: jsval where
  "INC = Obj [(''type'', Str ''INC'')]"

text \<open>The closure that \<^verbatim>\<open>combineReducers\<close> builds for the scenario.\<close>

definition scenario_closure :: "host \<Rightarrow> closure" where
  "scenario_closure h =
     \<lparr> finalReducers = [(''counter'', counter h), (''name'', name_reducer)],
       finalReducerNames = [''counter'', ''name''],
       unexpectedKeyCache = (if diagnostic h then Some [] else None),
       sanityError = None \<rparr>"

section \<open>Notions the properties are stated with\<close>

text \<open>
  What \<^verbatim>\<open>combineReducers\<close> establishes for the closure and every invocation keeps: the
  names are the keys of \<^verbatim>\<open>finalReducers\<close>, no key occurs twice, and the cache is an object
  whenever the diagnostics are on.
\<close>

definition wf_closure :: "host \<Rightarrow> closure \<Rightarrow> bool" where
  "wf_closure h c \<longleftrightarrow>
     finalReducerNames c = map fst (finalReducers c) \<and>
     distinct (map fst (finalReducers c)) \<and>
     (diagnostic h \<longrightarrow> unexpectedKeyCache c \<noteq> None)"

text \<open>The function, if any, that the argument of \<^verbatim>\<open>combineReducers\<close> holds under a name.\<close>

definition registered :: "(string \<times> propval) list \<Rightarrow> string \<Rightarrow> reducer option" where
  "registered ps k = (case map_of ps k of Some (Fn r) \<Rightarrow> Some r | _ \<Rightarrow> None)"

text \<open>The functions among the properties of the argument, in the order of its keys.\<close>

fun functions_of :: "(string \<times> propval) list \<Rightarrow> (string \<times> reducer) list" where
  "functions_of [] = []"
| "functions_of ((k, Fn r) # ps) = (k, r) # functions_of ps"
| "functions_of ((k, Val x) # ps) = functions_of ps"

text \<open>
  What probing one reducer throws, when the number drawn for its random probe is the
  \<open>n\<close>-th one: what the reducer throws itself, or the error for an \<^verbatim>\<open>undefined\<close> result;
  \<open>None\<close> when both probes return defined values.
\<close>

definition probe_throws :: "host \<Rightarrow> string \<Rightarrow> reducer \<Rightarrow> nat \<Rightarrow> error option" where
  "probe_throws h name r n =
     (case r Undefined init_action of
        Inl e \<Rightarrow> Some e
      | Inr initialState \<Rightarrow>
          if initialState = Undefined then Some (init_error name)
          else (case r Undefined (probe_action (Math_random36 h n)) of
                  Inl e \<Rightarrow> Some e
                | Inr probed \<Rightarrow> if probed = Undefined then Some (probe_error name) else None))"

text \<open>What probing the reducer throws, if anything, is truthy.\<close>

definition probe_truthy :: "host \<Rightarrow> string \<Rightarrow> reducer \<Rightarrow> nat \<Rightarrow> bool" where
  "probe_truthy h name r n =
     (case probe_throws h name r n of None \<Rightarrow> True | Some e \<Rightarrow> error_truthy e)"

text \<open>
  A reducer that returns \<^verbatim>\<open>undefined\<close> for the initialization probe, or for the random
  probe made with the \<open>n\<close>-th number drawn.
\<close>

definition fails_probe_at :: "host \<Rightarrow> reducer \<Rightarrow> nat \<Rightarrow> bool" where
  "fails_probe_at h r n \<longleftrightarrow>
     r Undefined init_action = Inr Undefined \<or>
     r Undefined (probe_action (Math_random36 h n)) = Inr Undefined"

text \<open>The two messages of \<^verbatim>\<open>combination\<close>'s diagnostics and errors that the properties name.\<close>

definition type_mismatch_message :: "closure \<Rightarrow> jsval \<Rightarrow> jsval \<Rightarrow> string" where
  \<open>type_mismatch_message c state action =
     ''The '' @
     (if truthy action \<and> get_prop action ''type'' = Str ActionTypes_INIT
      then ''preloadedState argument passed to createStore''
      else ''previous state received by the reducer'') @
     '' has unexpected type of "'' @ class_name state @
     ''". Expected argument to be an Immutable Map with the following '' @
     ''keys: "'' @ join ''", "'' (map fst (finalReducers c)) @ ''"''\<close>

definition no_reducer_message :: string where
  "no_reducer_message =
     ''Store does not have a valid reducer. Make sure the argument passed '' @
     ''to combineReducers is an object whose values are reducers.''"

subsection \<open>Concrete inputs\<close>

text \<open>A development host with a console, and a world in which nothing has happened yet.\<close>

definition dev_host :: host where
  "dev_host = \<lparr> process_NODE_ENV = Some (Str ''development''), console_error = True,
                 Math_random36 = (\<lambda>n. ''0.4fzyo82mvyr''),
                 object_toString = (\<lambda>v. ''[object Object]'') \<rparr>"

definition world0 :: world where
  "world0 = \<lparr> console = [], calls = [], draws = 0, mmaps = (\<lambda>a. []) \<rparr>"

text \<open>\<^verbatim>\<open>bad: () => undefined\<close>, the reducer of the specification's second scenario.\<close>

definition bad :: reducer where
  "bad s a = Inr Undefined"

text \<open>\<^verbatim>\<open>(s = 0, a) => s\<close>: a reducer that ignores every action.\<close>

definition keep :: reducer where
  "keep s0 a = Inr (if s0 = Undefined then Num 0 else s0)"




text \<open>
  \<^verbatim>\<open>(s = 0, a) => { if (a.type === '@@redux/INIT') throw null; return s }\<close>: a reducer
  that throws a falsy value for the initialization probe.
\<close>

definition shy :: reducer where
  "shy s a =
     (if a = Undefined \<or> a = Null then Inl TypeError
      else if get_prop a ''type'' = Str ActionTypes_INIT then Inl (Thrown Null)
      else Inr (if s = Undefined then Num 0 else s))"

text \<open>
  The world in which the Map in mutable mode at address \<open>0\<close> holds
  \<^verbatim>\<open>{counter: 1, extra: 'x'}\<close>.
\<close>

definition world1 :: world where
  "world1 = world0\<lparr>mmaps := (\<lambda>a. [])(0 := [(''counter'', Num 1), (''extra'', Str ''x'')])\<rparr>"

section \<open>Evaluation and auxiliary facts\<close>

lemmas eval_defs =
  combineReducers_def assertReducerSanity_def call_def init_action_def probe_action_def
  probe_type_def get_prop_def ActionTypes_INIT_def Let_def combination_def shape_warning_def
  getUnexpectedStateShapeWarningMessage_def keySeq_def unexpectedKeys_length_def
  withMutations_def imap_get_def imap_set_def unexpectedKey_def hasOwnProperty_def
  cache_read_def cache_set_def Object_prototype_keys_def warning_def diagnostic_def NODE_ENV_def
  getUndefinedStateErrorMessage_def truthy_def toString_def class_name_def entries_of_def
  sanityError_truthy_def error_truthy_def function_readonly_keys_def

subsection \<open>The shape check\<close>

text \<open>With a cache object at hand the shape check never throws, and it neither applies a
  reducer nor touches anything of the closure but the cache.\<close>

lemma forEach_Some:
  "\<exists>own'. unexpectedKeys_forEach rs ks (Some own) = Inr (Some own')"
  by (induction ks arbitrary: own)
     (auto simp: unexpectedKey_def cache_read_def cache_set_def)

lemma getUnexpected_Some:
  "\<exists>msg own'. getUnexpectedStateShapeWarningMessage w state rs a (Some own) = Inr (msg, Some own')"
proof (cases "entries_of w state")
  case (Some m)
  obtain own' where "unexpectedKeys_forEach rs (keySeq m) (Some own) = Inr (Some own')"
    using forEach_Some by blast
  with Some show ?thesis
    by (simp add: getUnexpectedStateShapeWarningMessage_def unexpectedKeys_length_def Let_def)
next
  case None
  then show ?thesis by (simp add: getUnexpectedStateShapeWarningMessage_def Let_def)
qed

lemma shape_warning_ok:
  assumes "diagnostic h \<longrightarrow> unexpectedKeyCache c \<noteq> None"
  shows "\<exists>c1 w1. shape_warning h c state a w = Inr (c1, w1) \<and>
           finalReducers c1 = finalReducers c \<and> finalReducerNames c1 = finalReducerNames c \<and>
           sanityError c1 = sanityError c \<and>
           (diagnostic h \<longrightarrow> unexpectedKeyCache c1 \<noteq> None) \<and>
           calls w1 = calls w \<and> draws w1 = draws w \<and> mmaps w1 = mmaps w"
proof (cases "diagnostic h")
  case False
  then show ?thesis by (simp add: shape_warning_def)
next
  case True
  with assms obtain own where own: "unexpectedKeyCache c = Some own" by auto
  obtain msg own' where
    "getUnexpectedStateShapeWarningMessage w state (finalReducers c) a (Some own) = Inr (msg, Some own')"
    using getUnexpected_Some by blast
  with True own show ?thesis
    by (auto simp: shape_warning_def warning_def split: option.splits)
qed

lemma shape_warning_frame:
  assumes "shape_warning h c state a w = Inr (c1, w1)"
  shows "finalReducers c1 = finalReducers c \<and> finalReducerNames c1 = finalReducerNames c \<and>
         sanityError c1 = sanityError c \<and> calls w1 = calls w \<and> draws w1 = draws w \<and>
         mmaps w1 = mmaps w"
  using assms
  by (auto simp: shape_warning_def warning_def split: if_splits sum.splits option.splits)

subsection \<open>The loop over the slices\<close>

lemma imap_get_set_other: "k \<noteq> n \<Longrightarrow> imap_get (imap_set t n v) k = imap_get t k"
  by (simp add: imap_get_def imap_set_def update_conv')

lemma map_of_imap_set: "map_of (imap_set t n v) = (map_of t)(n \<mapsto> v)"
  by (simp add: imap_set_def update_conv')

text \<open>A loop that returns has applied every reducer to the slice of the input, in the order
  of the names, and has written each result; the other keys are as they were.\<close>

lemma combination_loop_success:
  assumes "combination_loop h rs a names t w = (None, t', w')" and "distinct names"
  shows "(\<forall>k\<in>set names. \<exists>f v. map_of rs k = Some f \<and> f (imap_get t k) a = Inr v \<and>
             v \<noteq> Undefined \<and> map_of t' k = Some v) \<and>
         (\<forall>k. k \<notin> set names \<longrightarrow> map_of t' k = map_of t k) \<and>
         calls w' = calls w @ map (\<lambda>k. (k, imap_get t k, a)) names \<and>
         console w' = console w \<and> mmaps w' = mmaps w"
  using assms
proof (induction names arbitrary: t w)
  case Nil
  then show ?case by simp
next
  case (Cons n names)
  from Cons.prems(1) obtain f where f: "map_of rs n = Some f"
    by (auto split: option.splits)
  from Cons.prems(1) f obtain v where v: "f (imap_get t n) a = Inr v" "v \<noteq> Undefined"
    and rest: "combination_loop h rs a names (imap_set t n v)
                 (w\<lparr>calls := calls w @ [(n, imap_get t n, a)]\<rparr>) = (None, t', w')"
    by (auto simp: call_def Let_def split: sum.splits if_splits)
  from Cons.prems(2) have dn: "distinct names" and nn: "n \<notin> set names" by auto
  note IH = Cons.IH [OF rest dn]
  have other: "imap_get (imap_set t n v) k = imap_get t k" if "k \<in> set names" for k
    using that nn by (intro imap_get_set_other) auto
  have "\<exists>f v. map_of rs k = Some f \<and> f (imap_get t k) a = Inr v \<and> v \<noteq> Undefined \<and>
          map_of t' k = Some v" if "k \<in> set (n # names)" for k
  proof (cases "k = n")
    case True
    from IH nn have "map_of t' n = map_of (imap_set t n v) n" by blast
    with True f v show ?thesis by (simp add: map_of_imap_set)
  next
    case False
    with that have kin: "k \<in> set names" by simp
    with IH obtain f' v' where "map_of rs k = Some f'" "f' (imap_get (imap_set t n v) k) a = Inr v'"
      "v' \<noteq> Undefined" "map_of t' k = Some v'" by blast
    with other [OF kin] show ?thesis by auto
  qed
  moreover have "map_of t' k = map_of t k" if "k \<notin> set (n # names)" for k
  proof -
    from that have "k \<notin> set names" "k \<noteq> n" by auto
    with IH have "map_of t' k = map_of (imap_set t n v) k" by blast
    with \<open>k \<noteq> n\<close> show ?thesis by (simp add: map_of_imap_set)
  qed
  moreover have "calls w' = calls w @ map (\<lambda>k. (k, imap_get t k, a)) (n # names)"
  proof -
    have "map (\<lambda>k. (k, imap_get (imap_set t n v) k, a)) names = map (\<lambda>k. (k, imap_get t k, a)) names"
      using other by simp
    with IH show ?thesis by simp
  qed
  moreover have "console w' = console w \<and> mmaps w' = mmaps w" using IH by simp
  ultimately show ?case by blast
qed



lemma combination_loop_console:
  "combination_loop h rs a names t w = (r, t', w') \<Longrightarrow> console w' = console w \<and> mmaps w' = mmaps w"
proof (induction names arbitrary: t w)
  case Nil
  then show ?case by auto
next
  case (Cons n names)
  show ?case
  proof (cases "map_of rs n")
    case None
    with Cons.prems show ?thesis by auto
  next
    case (Some f)
    show ?thesis
    proof (cases "f (imap_get t n) a")
      case (Inl e)
      with Cons.prems Some show ?thesis by (auto simp: call_def)
    next
      case (Inr v)
      show ?thesis
      proof (cases "v = Undefined")
        case True
        with Cons.prems Some Inr show ?thesis by (auto simp: call_def)
      next
        case False
        with Cons.prems Some Inr have
          "combination_loop h rs a names (imap_set t n v)
             (w\<lparr>calls := calls w @ [(n, imap_get t n, a)]\<rparr>) = (r, t', w')"
          by (simp add: call_def)
        from Cons.IH [OF this] show ?thesis by simp
      qed
    qed
  qed
qed

subsection \<open>The sanity check\<close>

text \<open>One round of the loop, by what probing the reducer throws.\<close>

lemma sanity_step_fail:
  assumes "map_of rs k = Some r" and "probe_throws h k r (draws w) = Some e"
  shows "fst (assertReducerSanity_loop h rs (k # names) w) = Some e"
  using assms
  by (auto simp: probe_throws_def call_def Let_def split: sum.splits if_splits)

lemma sanity_step_pass:
  assumes "map_of rs k = Some r" and "probe_throws h k r (draws w) = None"
  shows "\<exists>w'. assertReducerSanity_loop h rs (k # names) w = assertReducerSanity_loop h rs names w' \<and>
           draws w' = Suc (draws w) \<and> console w' = console w \<and> mmaps w' = mmaps w"
proof -
  from assms(2) obtain v v' where "r Undefined init_action = Inr v" "v \<noteq> Undefined"
    "r Undefined (probe_action (Math_random36 h (draws w))) = Inr v'" "v' \<noteq> Undefined"
    by (auto simp: probe_throws_def split: sum.splits if_splits)
  with assms(1) show ?thesis
    by (auto simp: call_def Let_def intro!: exI)
qed



text \<open>Up to a reducer whose probing throws, the check throws; what it throws is truthy when
  whatever the reducers up to there throw is.\<close>

lemma sanity_loop_captures:
  assumes "\<forall>(k', r')\<in>set pre. map_of rs k' = Some r'" and "map_of rs k = Some r"
    and "\<forall>(i, k', r')\<in>set (enumerate (draws w) pre). probe_truthy h k' r' i"
    and "probe_throws h k r (draws w + length pre) = Some e" and "error_truthy e"
  shows "\<exists>e'. fst (assertReducerSanity_loop h rs (map fst pre @ k # rest) w) = Some e' \<and>
           error_truthy e'"
  using assms
proof (induction pre arbitrary: w)
  case Nil
  then show ?case using sanity_step_fail [of rs k r h w e rest] by simp
next
  case (Cons p pre)
  obtain k' r' where p: "p = (k', r')" by (cases p)
  from Cons.prems(1) p have look: "map_of rs k' = Some r'" by simp
  from Cons.prems(3) p have t0: "probe_truthy h k' r' (draws w)" by simp
  show ?case
  proof (cases "probe_throws h k' r' (draws w)")
    case (Some e0)
    with t0 have "error_truthy e0" by (simp add: probe_truthy_def)
    moreover from sanity_step_fail [OF look Some, of "map fst pre @ k # rest"] p
    have "fst (assertReducerSanity_loop h rs (map fst (p # pre) @ k # rest) w) = Some e0" by simp
    ultimately show ?thesis by blast
  next
    case None
    from sanity_step_pass [OF look None, of "map fst pre @ k # rest"] obtain w1 where
      step: "assertReducerSanity_loop h rs (k' # map fst pre @ k # rest) w =
             assertReducerSanity_loop h rs (map fst pre @ k # rest) w1"
      and d: "draws w1 = Suc (draws w)" by blast
    from Cons.prems(3) have a: "\<forall>(i, k', r')\<in>set (enumerate (draws w1) pre). probe_truthy h k' r' i"
      by (simp add: d)
    have b: "probe_throws h k r (draws w1 + length pre) = Some e"
      using Cons.prems(4) by (simp add: d)
    from Cons.prems(1) have c: "\<forall>(k', r')\<in>set pre. map_of rs k' = Some r'" by simp
    from Cons.IH [OF c Cons.prems(2) a b Cons.prems(5)] step p show ?thesis by simp
  qed
qed

lemma fails_probe_throws:
  assumes "fails_probe_at h r n" and "probe_truthy h k r n"
  shows "\<exists>e. probe_throws h k r n = Some e \<and> error_truthy e"
proof (cases "probe_throws h k r n")
  case None
  with assms(1) show ?thesis
    by (auto simp: fails_probe_at_def probe_throws_def split: sum.splits if_splits)
next
  case (Some e)
  with assms(2) show ?thesis by (simp add: probe_truthy_def)
qed

subsection \<open>The construction\<close>

lemma functions_of_append: "functions_of (xs @ ys) = functions_of xs @ functions_of ys"
  by (induction xs rule: functions_of.induct) auto

lemma functions_of_keys: "fst ` set (functions_of ps) \<subseteq> fst ` set ps"
  by (induction ps rule: functions_of.induct) auto

lemma functions_of_distinct: "distinct (map fst ps) \<Longrightarrow> distinct (map fst (functions_of ps))"
proof (induction ps rule: functions_of.induct)
  case (2 k r ps)
  then show ?case using functions_of_keys [of ps] by auto
qed auto

lemma update_fresh: "n \<notin> fst ` set al \<Longrightarrow> AList.update n v al = al @ [(n, v)]"
  by (induction al) auto

text \<open>For an object (every key once) that holds no function under \<^verbatim>\<open>__proto__\<close>, the first
  loop of \<^verbatim>\<open>combineReducers\<close> keeps exactly the functions, in the order of the keys.\<close>

lemma collect_functions:
  assumes "distinct (map fst (done @ todo))" and "registered (done @ todo) ''__proto__'' = None"
  shows "\<exists>w'. collect h (done @ todo) (map fst todo) (functions_of done) False w =
                 (Inr (functions_of (done @ todo)), w') \<and>
               calls w' = calls w \<and> draws w' = draws w \<and> mmaps w' = mmaps w"
  using assms
proof (induction todo arbitrary: "done" w)
  case Nil
  then show ?case by simp
next
  case (Cons p todo)
  obtain n v where p: "p = (n, v)" by (cases p)
  let ?ps = "done @ p # todo"
  from Cons.prems(1) p have fresh: "n \<notin> fst ` set done" by auto
  then have look: "map_of ?ps n = Some v"
    by (simp add: p map_of_append map_of_eq_None_iff [THEN iffD2] map_add_def split: option.splits)
  define w1 where \<open>w1 = (case v of
                  Val Undefined \<Rightarrow>
                    if diagnostic h
                    then warning h (''No reducer provided for key "'' @ n @ ''"'') w
                    else w
                | _ \<Rightarrow> w)\<close>
  have w1: "calls w1 = calls w \<and> draws w1 = draws w \<and> mmaps w1 = mmaps w"
    by (simp add: w1_def warning_def split: propval.splits jsval.splits)
  have eq: "(done @ [p]) @ todo = ?ps" by simp
  from Cons.prems have d': "distinct (map fst ((done @ [p]) @ todo))"
    and np': "registered ((done @ [p]) @ todo) ''__proto__'' = None" by simp_all
  note IH = Cons.IH [OF d' np', of w1, unfolded eq]
  show ?case
  proof (cases v)
    case (Fn r)
    from look Fn have "registered ?ps n = Some r" by (simp add: registered_def)
    with Cons.prems(2) have np: "n \<noteq> ''__proto__''" by auto
    from fresh functions_of_keys [of "done"] have "n \<notin> fst ` set (functions_of done)" by auto
    then have upd: "AList.update n r (functions_of done) = functions_of (done @ [p])"
      by (simp add: update_fresh functions_of_append p Fn)
    have "collect h ?ps (map fst (p # todo)) (functions_of done) False w =
          collect h ?ps (map fst todo) (functions_of (done @ [p])) False w1"
      using look np upd by (simp add: p Fn w1_def Let_def)
    with IH w1 show ?thesis by auto
  next
    case (Val x)
    have same: "functions_of (done @ [p]) = functions_of done"
      by (simp add: functions_of_append p Val)
    have "collect h ?ps (map fst (p # todo)) (functions_of done) False w =
          collect h ?ps (map fst todo) (functions_of (done @ [p])) False w1"
      using look same by (simp add: p Val w1_def Let_def)
    with IH w1 show ?thesis by auto
  qed
qed

lemma collect_distinct:
  assumes "collect h ps names final proto w = (Inr final', w')" and "distinct (map fst final)"
  shows "distinct (map fst final')"
  using assms
proof (induction names arbitrary: final proto w)
  case Nil
  then show ?case by simp
next
  case (Cons n names)
  define v where "v = (case map_of ps n of None \<Rightarrow> Val Undefined | Some p \<Rightarrow> p)"
  show ?case
  proof (cases v)
    case (Fn r)
    with Cons.prems(1) obtain final1 proto1 w1 where
      "collect h ps names final1 proto1 w1 = (Inr final', w')"
      "final1 = final \<or> final1 = AList.update n r final"
      by (auto simp: v_def Let_def split: if_splits)
    with Cons.IH Cons.prems(2) show ?thesis by (auto simp: distinct_update)
  next
    case (Val x)
    with Cons.prems(1) obtain w1 where "collect h ps names final proto w1 = (Inr final', w')"
      by (auto simp: v_def Let_def)
    with Cons.IH Cons.prems(2) show ?thesis by blast
  qed
qed

text \<open>Every closure that \<^verbatim>\<open>combineReducers\<close> returns is well formed.\<close>

lemma combineReducers_wf:
  assumes "combineReducers h (Object ps) w = (Inr c, w')"
  shows "wf_closure h c"
proof -
  from assms obtain final w1 where col: "collect h ps (map fst ps) [] False w = (Inr final, w1)"
    and c: "finalReducers c = final" "finalReducerNames c = map fst final"
      "unexpectedKeyCache c = (if diagnostic h then Some [] else None)"
    by (auto simp: combineReducers_def split: prod.splits sum.splits)
  from collect_distinct [OF col] have "distinct (map fst final)" by simp
  with c show ?thesis by (simp add: wf_closure_def)
qed

lemma combineReducers_Object:
  assumes "distinct (map fst ps)" and "registered ps ''__proto__'' = None"
  shows "\<exists>c w1 w'. combineReducers h (Object ps) w = (Inr c, w') \<and> wf_closure h c \<and>
          finalReducers c = functions_of ps \<and> draws w1 = draws w \<and>
          sanityError c = fst (assertReducerSanity_loop h (functions_of ps)
                                 (map fst (functions_of ps)) w1)"
proof -
  from collect_functions [of "[]" ps h w] assms obtain w1 where
    col: "collect h ps (map fst ps) [] False w = (Inr (functions_of ps), w1)"
    and d: "draws w1 = draws w" by auto
  obtain err w2 where san: "assertReducerSanity h (functions_of ps) w1 = (err, w2)"
    by (cases "assertReducerSanity h (functions_of ps) w1")
  from col san have build: "combineReducers h (Object ps) w =
      (Inr \<lparr> finalReducers = functions_of ps, finalReducerNames = map fst (functions_of ps),
             unexpectedKeyCache = (if diagnostic h then Some [] else None),
             sanityError = err \<rparr>, w2)"
    by (simp add: combineReducers_def)
  from combineReducers_wf [OF build] build san d show ?thesis
    by (auto simp: assertReducerSanity_def)
qed

text \<open>With a function under \<^verbatim>\<open>__proto__\<close>, a later function under \<^verbatim>\<open>name\<close> makes the
  construction throw.\<close>

lemma proto_then_name_throws:
  "fst (combineReducers dev_host (Object [(''__proto__'', Fn keep), (''name'', Fn keep)]) world0) =
     Inl TypeError"
  by (simp add: eval_defs)

subsection \<open>Invocations\<close>

lemma combination_sticky:
  "sanityError c = Some e \<Longrightarrow> error_truthy e \<Longrightarrow> combination h c state action w = (Inl e, c, w)"
  by (simp add: combination_def sanityError_truthy_def)

lemma combination_body:
  assumes "\<not> sanityError_truthy c"
  shows "combination h c state0 action w =
     (let state = (if state0 = Undefined then IMap [] else state0)
      in case shape_warning h c state action w of
           Inl e \<Rightarrow> (Inl e, c, w)
         | Inr (c1, w1) \<Rightarrow>
             (case withMutations state
                     (combination_loop h (finalReducers c) action (finalReducerNames c)) w1 of
                (r, w2) \<Rightarrow> (r, c1, w2)))"
  using assms by (simp add: combination_def)


text \<open>Every invocation keeps the closure well formed.\<close>

lemma combination_wf:
  assumes "wf_closure h c" and "combination h c state action w = (r, c', w')"
  shows "wf_closure h c' \<and> finalReducers c' = finalReducers c \<and> sanityError c' = sanityError c"
proof (cases "sanityError_truthy c")
  case True
  then obtain e where "sanityError c = Some e" "error_truthy e"
    by (auto simp: sanityError_truthy_def split: option.splits)
  with assms show ?thesis by (simp add: combination_sticky)
next
  case False
  define st where "st = (if state = Undefined then IMap [] else state)"
  from assms(1) have "diagnostic h \<longrightarrow> unexpectedKeyCache c \<noteq> None"
    by (simp add: wf_closure_def)
  from shape_warning_ok [OF this, of st action w] obtain c1 w1 where
    sw: "shape_warning h c st action w = Inr (c1, w1)" and
    c1: "finalReducers c1 = finalReducers c" "finalReducerNames c1 = finalReducerNames c"
        "sanityError c1 = sanityError c" "diagnostic h \<longrightarrow> unexpectedKeyCache c1 \<noteq> None"
    by blast
  from assms(2) sw have "c' = c1"
    by (auto simp: combination_body [OF False] Let_def st_def split: prod.splits)
  with c1 assms(1) show ?thesis by (simp add: wf_closure_def)
qed

lemma combination_on_map:
  assumes "wf_closure h c" and "\<not> sanityError_truthy c" and "state \<noteq> Undefined"
  shows "\<exists>c1 w1. calls w1 = calls w \<and> mmaps w1 = mmaps w \<and>
           combination h c state action w =
             (case withMutations state
                     (combination_loop h (finalReducers c) action (finalReducerNames c)) w1 of
                (r, w2) \<Rightarrow> (r, c1, w2))"
proof -
  from assms(1) have "diagnostic h \<longrightarrow> unexpectedKeyCache c \<noteq> None"
    by (simp add: wf_closure_def)
  from shape_warning_ok [OF this, of state action w] obtain c1 w1 where
    sw: "shape_warning h c state action w = Inr (c1, w1)" and cw: "calls w1 = calls w"
      "mmaps w1 = mmaps w"
    by blast
  have "combination h c state action w =
             (case withMutations state
                     (combination_loop h (finalReducers c) action (finalReducerNames c)) w1 of
                (r, w2) \<Rightarrow> (r, c1, w2))"
    using sw assms(3) by (simp add: combination_body [OF assms(2)])
  with cw show ?thesis by blast
qed



lemma distinct_map_of_mid:
  assumes "distinct (map fst (pre @ (k, f) # post))"
  shows "map_of (pre @ (k, f) # post) k = Some f"
  using assms by (induction pre) auto

lemma distinct_map_of_pre:
  assumes "distinct (map fst (pre @ rest))" and "(n, g) \<in> set pre"
  shows "map_of (pre @ rest) n = Some g"
  using assms by (induction pre) (auto simp: rev_image_eqI)

text \<open>With at least one reducer registered, an invocation on an Immutable Map writes nothing
  to the console: the branch that builds the message for unexpected keys is guarded by
  the \<^verbatim>\<open>length\<close> of a lazy Seq.\<close>

lemma map_state_never_warns:
  assumes "finalReducers c \<noteq> []" and "isMap state"
    and "combination h c state action w = (r, c', w')"
  shows "console w' = console w"
proof (cases "sanityError_truthy c")
  case True
  then obtain e where "sanityError c = Some e" "error_truthy e"
    by (auto simp: sanityError_truthy_def split: option.splits)
  with assms(3) show ?thesis by (simp add: combination_sticky)
next
  case False
  from assms(2) have nu: "state \<noteq> Undefined" by (auto simp: isMap_def)
  from assms(2) obtain m where m: "entries_of w state = Some m"
    by (cases state) (auto simp: isMap_def entries_of_def)
  show ?thesis
  proof (cases "shape_warning h c state action w")
    case (Inl e)
    with assms(3) nu show ?thesis by (simp add: combination_body [OF False])
  next
    case (Inr p)
    obtain c1 w1 where p: "p = (c1, w1)" by (cases p)
    from Inr p assms(1) m have w1: "console w1 = console w"
      by (auto simp: shape_warning_def getUnexpectedStateShapeWarningMessage_def Let_def
          unexpectedKeys_length_def split: if_splits sum.splits)
    from assms(3) nu Inr p have run:
      "withMutations state (combination_loop h (finalReducers c) action (finalReducerNames c)) w1 =
         (r, w')"
      by (auto simp: combination_body [OF False] split: prod.splits)
    have "console w' = console w1"
    proof (cases state)
      case (IMap m0)
      with run obtain e t where
        "combination_loop h (finalReducers c) action (finalReducerNames c) m0 w1 = (e, t, w')"
        by (auto simp: withMutations_def split: prod.splits option.splits)
      from combination_loop_console [OF this] show ?thesis by simp
    next
      case (MMap a)
      with run obtain e t w2 where
        l: "combination_loop h (finalReducers c) action (finalReducerNames c) (mmaps w1 a) w1 = (e, t, w2)"
        and "w' = w2\<lparr>mmaps := (mmaps w2)(a := t)\<rparr>"
        by (auto simp: withMutations_def split: prod.splits option.splits)
      with combination_loop_console [OF l] show ?thesis by simp
    qed (use run in \<open>auto simp: withMutations_def\<close>)
    with w1 show ?thesis by simp
  qed
qed

text \<open>
  The branch would not name a key either: the traversal by \<^verbatim>\<open>forEach\<close> enters every
  unexpected key in the cache, and the later traversal by \<^verbatim>\<open>join\<close> runs the predicate
  again, on that cache, and finds no element.
\<close>

lemma forEach_marks:
  assumes "unexpectedKeys_forEach rs ks (Some own) = Inr (Some own')"
  shows "set own \<subseteq> set own' \<and>
         (\<forall>k\<in>set ks. unexpectedKey rs (Some own') k = Inr False)"
  using assms
proof (induction ks arbitrary: own)
  case Nil
  then show ?case by simp
next
  case (Cons k ks)
  define own1 where "own1 = (if \<not> hasOwnProperty rs k \<and> k \<notin> set own \<and> k \<notin> set Object_prototype_keys
                             then own @ [k] else own)"
  from Cons.prems have rest: "unexpectedKeys_forEach rs ks (Some own1) = Inr (Some own')"
    by (auto simp: own1_def unexpectedKey_def cache_read_def cache_set_def split: if_splits)
  from Cons.IH [OF rest] have sub: "set own1 \<subseteq> set own'"
    and tail: "\<forall>k\<in>set ks. unexpectedKey rs (Some own') k = Inr False" by auto
  have "set own \<subseteq> set own1" by (auto simp: own1_def)
  moreover have "unexpectedKey rs (Some own') k = Inr False"
    using sub by (auto simp: own1_def unexpectedKey_def cache_read_def split: if_splits)
  ultimately show ?case using sub tail by auto
qed

lemma elements_none:
  assumes "\<forall>k\<in>set ks. unexpectedKey rs c k = Inr False"
  shows "unexpectedKeys_elements rs ks c = Inr []"
  using assms by (induction ks) auto

lemma unexpectedKeys_elements_after_forEach:
  assumes "unexpectedKeys_forEach rs ks (Some own) = Inr (Some own')"
  shows "unexpectedKeys_elements rs ks (Some own') = Inr []"
  using forEach_marks [OF assms] by (intro elements_none) simp

subsection \<open>The scenario\<close>

lemma scenario_build:
  "combineReducers h (scenario_reducers h) w =
     (Inr (scenario_closure h),
      w\<lparr>calls := calls w @ [(''counter'', Undefined, init_action),
                             (''counter'', Undefined, probe_action (Math_random36 h (draws w))),
                             (''name'', Undefined, init_action),
                             (''name'', Undefined, probe_action (Math_random36 h (Suc (draws w))))],
         draws := Suc (Suc (draws w))\<rparr>)"
  by (simp add: combineReducers_def scenario_reducers_def scenario_closure_def
      assertReducerSanity_def call_def
      counter_def name_reducer_def init_action_def probe_action_def probe_type_def get_prop_def
      ActionTypes_INIT_def Let_def)

lemma scenario_first:
  "combination h (scenario_closure h) (IMap []) INC w =
     (Inr (IMap [(''counter'', Num 1), (''name'', Str [])]), scenario_closure h,
      w\<lparr>calls := calls w @ [(''counter'', Undefined, INC), (''name'', Undefined, INC)]\<rparr>)"
  by (simp add: combination_def sanityError_truthy_def shape_warning_def scenario_closure_def
      getUnexpectedStateShapeWarningMessage_def entries_of_def
      keySeq_def unexpectedKeys_length_def withMutations_def call_def imap_get_def imap_set_def
      counter_def name_reducer_def INC_def get_prop_def Let_def)

lemma scenario_second:
  "combination h (scenario_closure h) (IMap [(''counter'', Num 1), (''name'', Str [])]) INC w =
     (Inr (IMap [(''counter'', Num 2), (''name'', Str [])]), scenario_closure h,
      w\<lparr>calls := calls w @ [(''counter'', Num 1, INC), (''name'', Str [], INC)]\<rparr>)"
  by (simp add: combination_def sanityError_truthy_def shape_warning_def scenario_closure_def
      getUnexpectedStateShapeWarningMessage_def entries_of_def
      keySeq_def unexpectedKeys_length_def withMutations_def call_def imap_get_def imap_set_def
      counter_def name_reducer_def INC_def get_prop_def Let_def unexpectedKey_def hasOwnProperty_def)

lemma scenario_closure_wf: "wf_closure h (scenario_closure h)"
  by (simp add: wf_closure_def scenario_closure_def)

section \<open>The scenario of the specification\<close>

text \<open>
  Claim C1. For the reducers \<^verbatim>\<open>{counter, name}\<close> of the scenario, on any host and in any
  world, \<^verbatim>\<open>combineReducers\<close> returns a combined reducer; invoked with the empty Map and
  \<^verbatim>\<open>{type: 'INC'}\<close> it returns the Map \<^verbatim>\<open>{counter: 1, name: ''}\<close>, having applied in one pass
  first \<^verbatim>\<open>counter\<close> and then \<^verbatim>\<open>name\<close>, each to the value the state holds for it (here
  \<^verbatim>\<open>undefined\<close>); invoked again with that result and the same action it returns
  \<^verbatim>\<open>{counter: 2, name: ''}\<close>, having applied \<^verbatim>\<open>counter\<close> to \<^verbatim>\<open>1\<close> and \<^verbatim>\<open>name\<close> to \<^verbatim>\<open>''\<close>.
\<close>

theorem scenario_counter_and_name:
  "\<exists>c w1. combineReducers h (scenario_reducers h) w = (Inr c, w1) \<and>
     (\<exists>c2 w2. combination h c (IMap []) INC w1 =
                 (Inr (IMap [(''counter'', Num 1), (''name'', Str [])]), c2, w2) \<and>
        calls w2 = calls w1 @ [(''counter'', Undefined, INC), (''name'', Undefined, INC)] \<and>
        (\<exists>c3 w3. combination h c2 (IMap [(''counter'', Num 1), (''name'', Str [])]) INC w2 =
                    (Inr (IMap [(''counter'', Num 2), (''name'', Str [])]), c3, w3) \<and>
           calls w3 = calls w2 @ [(''counter'', Num 1, INC), (''name'', Str [], INC)]))"
  by (simp add: scenario_build scenario_first scenario_second)

section \<open>Sticky sanity errors\<close>

text \<open>
  Claim C2, as stated, at two mappings that contain \<^verbatim>\<open>bad: () => undefined\<close>. In the
  first, \<^verbatim>\<open>bad\<close> is the own property \<^verbatim>\<open>__proto__\<close>: it is neither registered nor probed,
  nothing is captured, and an invocation returns the empty Map. In the second, \<^verbatim>\<open>bad\<close>
  comes after a reducer that throws \<^verbatim>\<open>null\<close> for the initialization probe: \<^verbatim>\<open>null\<close> is
  what is captured, it is falsy and is not thrown again, and an invocation applies both
  reducers and throws the error of an \<^verbatim>\<open>undefined\<close> result instead.
\<close>

theorem sanity_failure_counterexample:
  \<open>map_of [(''__proto__'', Fn bad)] ''__proto__'' = Some (Fn bad) \<and>
   bad Undefined init_action = Inr Undefined \<and>
   (\<exists>c w1. combineReducers dev_host (Object [(''__proto__'', Fn bad)]) world0 = (Inr c, w1) \<and>
      sanityError c = None \<and> finalReducers c = [] \<and> calls w1 = [] \<and>
      (\<exists>c' w'. combination dev_host c (IMap []) INC w1 = (Inr (IMap []), c', w') \<and>
         calls w' = [])) \<and>
   (\<exists>c w1. combineReducers dev_host (Object [(''shy'', Fn shy), (''bad'', Fn bad)]) world0 =
              (Inr c, w1) \<and>
      sanityError c = Some (Thrown Null) \<and>
      (\<exists>c' w'. combination dev_host c (IMap []) INC w1 =
         (Inl (Error (''Given action "INC", reducer "bad" returned undefined. '' @
                      ''To ignore an action, you must explicitly return the previous state.'')),
          c', w') \<and>
         calls w' = calls w1 @ [(''shy'', Undefined, INC), (''bad'', Undefined, INC)]))\<close>
  by (simp add: eval_defs dev_host_def world0_def bad_def shy_def INC_def)

text \<open>
  Claim C2, amended. Let the argument of \<^verbatim>\<open>combineReducers\<close> be an object (every key
  once) that holds no function under \<^verbatim>\<open>__proto__\<close>, and let \<open>r\<close>, the function after the
  functions \<open>pre\<close>, return \<^verbatim>\<open>undefined\<close> for the initialization probe or for the random
  probe made with the number drawn for it; let whatever probing the reducers up to and
  including \<open>r\<close> throws be truthy. Then the construction does not throw: it returns a
  combined reducer that has captured a truthy error, and every invocation of that reducer,
  whatever the state, the action and the world, throws this very error and leaves the
  closure and the world as they are, so that no reducer is applied and nothing is logged.
\<close>

theorem sanity_failure_is_sticky:
  assumes "distinct (map fst ps)" and "registered ps ''__proto__'' = None"
    and "functions_of ps = pre @ (k, r) # post"
    and "fails_probe_at h r (draws w + length pre)"
    and "\<forall>(i, k', r')\<in>set (enumerate (draws w) (pre @ [(k, r)])). probe_truthy h k' r' i"
  shows "\<exists>c w' e. combineReducers h (Object ps) w = (Inr c, w') \<and>
           sanityError c = Some e \<and> error_truthy e \<and>
           (\<forall>state action w2. combination h c state action w2 = (Inl e, c, w2))"
proof -
  let ?fs = "functions_of ps"
  from combineReducers_Object [OF assms(1,2), of h w] obtain c w1 w' where
    build: "combineReducers h (Object ps) w = (Inr c, w')" and
    d1: "draws w1 = draws w" and
    san: "sanityError c = fst (assertReducerSanity_loop h ?fs (map fst ?fs) w1)"
    by blast
  from functions_of_distinct [OF assms(1)] have dist: "distinct (map fst (pre @ (k, r) # post))"
    by (simp add: assms(3))
  have look: "map_of ?fs k = Some r"
    unfolding assms(3) using dist by (rule distinct_map_of_mid)
  have looks: "\<forall>(k', r')\<in>set pre. map_of ?fs k' = Some r'"
    unfolding assms(3) using distinct_map_of_pre [OF dist] by auto
  from assms(5) have tpre: "\<forall>(i, k', r')\<in>set (enumerate (draws w1) pre). probe_truthy h k' r' i"
    and tk: "probe_truthy h k r (draws w + length pre)"
    by (simp_all add: enumerate_append_eq d1)
  from fails_probe_throws [OF assms(4) tk] obtain e0 where
    e0: "probe_throws h k r (draws w1 + length pre) = Some e0" "error_truthy e0"
    by (auto simp: d1)
  from sanity_loop_captures [OF looks look tpre e0, of "map fst post"] obtain e where
    "fst (assertReducerSanity_loop h ?fs (map fst pre @ k # map fst post) w1) = Some e"
    "error_truthy e" by blast
  with san have "sanityError c = Some e" "error_truthy e" by (simp_all add: assms(3))
  with build show ?thesis by (auto simp: combination_sticky)
qed

text \<open>A mapping with \<^verbatim>\<open>bad: () => undefined\<close> of the specification's scenario in second
  place.\<close>

theorem sanity_failure_is_sticky_witness:
  "distinct (map fst [(''ok'', Fn keep), (''bad'', Fn bad)]) \<and>
   registered [(''ok'', Fn keep), (''bad'', Fn bad)] ''__proto__'' = None \<and>
   functions_of [(''ok'', Fn keep), (''bad'', Fn bad)] = [(''ok'', keep)] @ (''bad'', bad) # [] \<and>
   fails_probe_at dev_host bad (draws world0 + length [(''ok'', keep)]) \<and>
   probe_truthy dev_host ''ok'' keep 0 \<and> probe_truthy dev_host ''bad'' bad 1 \<and>
   (\<exists>c w' e. combineReducers dev_host (Object [(''ok'', Fn keep), (''bad'', Fn bad)]) world0 =
                (Inr c, w') \<and>
      sanityError c = Some e \<and> error_truthy e \<and>
      (\<forall>state action w2. combination dev_host c state action w2 = (Inl e, c, w2)))"
proof -
  let ?ps = "[(''ok'', Fn keep), (''bad'', Fn bad)]"
  have a: "distinct (map fst ?ps)" by simp
  have b: "registered ?ps ''__proto__'' = None" by (simp add: registered_def)
  have c: "functions_of ?ps = [(''ok'', keep)] @ (''bad'', bad) # []" by simp
  have d: "fails_probe_at dev_host bad (draws world0 + length [(''ok'', keep)])"
    by (simp add: fails_probe_at_def bad_def)
  have t0: "probe_truthy dev_host ''ok'' keep 0"
    by (simp add: probe_truthy_def probe_throws_def keep_def)
  have t1: "probe_truthy dev_host ''bad'' bad 1"
    by (simp add: probe_truthy_def probe_throws_def bad_def init_error_def error_truthy_def)
  have e: "\<forall>(i, k', r')\<in>set (enumerate (draws world0) ([(''ok'', keep)] @ [(''bad'', bad)])).
             probe_truthy dev_host k' r' i"
    using t0 t1 by (simp add: world0_def)
  from sanity_failure_is_sticky [OF a b c d e] a b c d t0 t1 show ?thesis by blast
qed

section \<open>A reducer that returns undefined during an invocation\<close>




section \<open>Absent state\<close>

text \<open>
  Claim C4. For every combined reducer (valid or not) and every action, an invocation
  with \<^verbatim>\<open>undefined\<close> as composite state has the same result, leaves the same cache and has
  the same effects as an invocation with the empty Immutable Map.
\<close>

theorem combination_undefined_state_is_empty_map:
  "combination h c Undefined action w = combination h c (IMap []) action w"
  by (simp add: combination_def)

section \<open>Actions that every reducer ignores\<close>




section \<open>The result of a successful invocation\<close>

text \<open>
  Claim C6, as stated, at a Map in mutable mode: the combined reducer of the scenario is
  invoked with the Map at address \<open>0\<close>, which holds \<^verbatim>\<open>{counter: 1, extra: 'x'}\<close>. The
  invocation returns that very Map, and the Map now holds
  \<^verbatim>\<open>{counter: 2, extra: 'x', name: ''}\<close>: the input has been modified.
\<close>

theorem mutable_input_counterexample:
  "isMap (MMap 0) \<and>
   (\<exists>c w1. combineReducers dev_host (scenario_reducers dev_host) world1 = (Inr c, w1) \<and>
      mmaps w1 0 = [(''counter'', Num 1), (''extra'', Str ''x'')] \<and>
      (\<exists>c' w'. combination dev_host c (MMap 0) INC w1 = (Inr (MMap 0), c', w') \<and>
         mmaps w' 0 = [(''counter'', Num 2), (''extra'', Str ''x''), (''name'', Str [])] \<and>
         mmaps w' 0 \<noteq> mmaps w1 0))"
  by (simp add: scenario_build isMap_def)
     (simp add: eval_defs scenario_closure_def dev_host_def world0_def world1_def counter_def
        name_reducer_def INC_def)

text \<open>
  Claim C6, amended. For a closure as \<^verbatim>\<open>combineReducers\<close> builds it and invocations keep it
  (\<open>combineReducers_wf\<close>, \<open>combination_wf\<close>): when an invocation on a Map with the entries
  \<open>m\<close> returns, the result is a Map whose entries \<open>m'\<close> hold, for every registered name, the
  defined value its reducer returned on the slice of \<open>m\<close>, and for every other key exactly
  what \<open>m\<close> holds for it (an unexpected key is carried through, a key that \<open>m\<close> lacks stays
  absent). On a persistent input the result is a persistent Map and no Map in mutable
  mode is written; the persistent input is a value, which nothing modifies. On an input
  in mutable mode the result is the input itself, which now holds \<open>m'\<close>, and no other Map
  in mutable mode is written.
\<close>

theorem combination_result_frame:
  assumes "wf_closure h c" and "entries_of w state = Some m"
    and "combination h c state action w = (Inr r, c', w')"
  shows "\<exists>m'. entries_of w' r = Some m' \<and>
           (\<forall>k f. map_of (finalReducers c) k = Some f \<longrightarrow>
              (\<exists>v. f (imap_get m k) action = Inr v \<and> v \<noteq> Undefined \<and> map_of m' k = Some v)) \<and>
           (\<forall>k. k \<notin> set (finalReducerNames c) \<longrightarrow> map_of m' k = map_of m k) \<and>
           (state = IMap m \<longrightarrow> r = IMap m' \<and> mmaps w' = mmaps w) \<and>
           (\<forall>a. state = MMap a \<longrightarrow> r = MMap a \<and> mmaps w' = (mmaps w)(a := m'))"
proof -
  from assms(2) have nu: "state \<noteq> Undefined" by (auto simp: entries_of_def)
  have nt: "\<not> sanityError_truthy c"
  proof
    assume "sanityError_truthy c"
    then obtain e where "sanityError c = Some e" "error_truthy e"
      by (auto simp: sanityError_truthy_def split: option.splits)
    with assms(3) show False by (simp add: combination_sticky)
  qed
  from combination_on_map [OF assms(1) nt nu, of w action] obtain c1 w1 where
    w1: "mmaps w1 = mmaps w" and
    comb: "combination h c state action w =
             (case withMutations state
                     (combination_loop h (finalReducers c) action (finalReducerNames c)) w1 of
                (r, w2) \<Rightarrow> (r, c1, w2))"
    by blast
  from comb assms(3) have run:
    "withMutations state (combination_loop h (finalReducers c) action (finalReducerNames c)) w1 =
       (Inr r, w')"
    by (auto split: prod.splits)
  from assms(1) have names: "finalReducerNames c = map fst (finalReducers c)"
    and d: "distinct (finalReducerNames c)" by (simp_all add: wf_closure_def)
  have content: "(\<forall>k f. map_of (finalReducers c) k = Some f \<longrightarrow>
              (\<exists>v. f (imap_get m k) action = Inr v \<and> v \<noteq> Undefined \<and> map_of m' k = Some v)) \<and>
           (\<forall>k. k \<notin> set (finalReducerNames c) \<longrightarrow> map_of m' k = map_of m k) \<and>
           mmaps w2 = mmaps w1"
    if loop: "combination_loop h (finalReducers c) action (finalReducerNames c) m w1 = (None, m', w2)"
    for m' w2
  proof -
    note S = combination_loop_success [OF loop d]
    have "\<exists>v. f (imap_get m k) action = Inr v \<and> v \<noteq> Undefined \<and> map_of m' k = Some v"
      if "map_of (finalReducers c) k = Some f" for k f
    proof -
      from that have "k \<in> set (finalReducerNames c)"
        unfolding names by (metis map_of_eq_None_iff option.distinct(1) set_map)
      with S that show ?thesis by fastforce
    qed
    with S show ?thesis by blast
  qed
  show ?thesis
  proof (cases state)
    case (IMap m0)
    with assms(2) have m0: "m0 = m" by (simp add: entries_of_def)
    from run IMap m0 obtain m' where
      loop: "combination_loop h (finalReducers c) action (finalReducerNames c) m w1 = (None, m', w')"
      and r: "r = IMap m'"
      by (auto simp: withMutations_def split: prod.splits option.splits)
    from content [OF loop] r IMap m0 w1 show ?thesis
      by (intro exI [of _ m']) (simp add: entries_of_def)
  next
    case (MMap a)
    with assms(2) w1 have m: "mmaps w1 a = m" by (simp add: entries_of_def)
    from run MMap m obtain m' w2 where
      loop: "combination_loop h (finalReducers c) action (finalReducerNames c) m w1 = (None, m', w2)"
      and r: "r = MMap a" and w': "w' = w2\<lparr>mmaps := (mmaps w2)(a := m')\<rparr>"
      by (auto simp: withMutations_def split: prod.splits option.splits)
    from content [OF loop] r MMap w1 w' show ?thesis
      by (intro exI [of _ m']) (simp add: entries_of_def)
  qed (use assms(2) in \<open>simp_all add: entries_of_def\<close>)
qed

theorem combination_result_frame_witness:
  "wf_closure dev_host (scenario_closure dev_host) \<and>
   entries_of world1 (IMap [(''counter'', Num 1), (''extra'', Str ''x'')]) =
     Some [(''counter'', Num 1), (''extra'', Str ''x'')] \<and>
   (\<exists>c' w'. combination dev_host (scenario_closure dev_host)
                (IMap [(''counter'', Num 1), (''extra'', Str ''x'')]) INC world1 =
              (Inr (IMap [(''counter'', Num 2), (''extra'', Str ''x''), (''name'', Str [])]), c', w') \<and>
      mmaps w' = mmaps world1 \<and>
      (\<exists>m'. IMap [(''counter'', Num 2), (''extra'', Str ''x''), (''name'', Str [])] = IMap m' \<and>
        (\<exists>v. counter dev_host (imap_get [(''counter'', Num 1), (''extra'', Str ''x'')] ''counter'') INC = Inr v \<and>
             v \<noteq> Undefined \<and> map_of m' ''counter'' = Some v) \<and>
        map_of m' ''extra'' = map_of [(''counter'', Num 1), (''extra'', Str ''x'')] ''extra''))"
proof -
  let ?m = "[(''counter'', Num 1), (''extra'', Str ''x'')]"
  let ?r = "IMap [(''counter'', Num 2), (''extra'', Str ''x''), (''name'', Str [])]"
  have wf: "wf_closure dev_host (scenario_closure dev_host)" by (rule scenario_closure_wf)
  have ent: "entries_of world1 (IMap ?m) = Some ?m" by (simp add: entries_of_def)
  obtain c' w' where run:
    "combination dev_host (scenario_closure dev_host) (IMap ?m) INC world1 = (Inr ?r, c', w')"
    by (simp add: eval_defs scenario_closure_def dev_host_def world0_def world1_def counter_def
        name_reducer_def INC_def)
  from combination_result_frame [OF wf ent run] obtain m' where
    m': "entries_of w' ?r = Some m'"
    and regs: "\<And>k f. map_of (finalReducers (scenario_closure dev_host)) k = Some f \<Longrightarrow>
             \<exists>v. f (imap_get ?m k) INC = Inr v \<and> v \<noteq> Undefined \<and> map_of m' k = Some v"
    and others: "\<And>k. k \<notin> set (finalReducerNames (scenario_closure dev_host)) \<Longrightarrow>
             map_of m' k = map_of ?m k"
    and pers: "?r = IMap m' \<and> mmaps w' = mmaps world1"
    by blast
  have a: "\<exists>v. counter dev_host (imap_get ?m ''counter'') INC = Inr v \<and>
           v \<noteq> Undefined \<and> map_of m' ''counter'' = Some v"
    by (rule regs) (simp add: scenario_closure_def)
  have b: "map_of m' ''extra'' = map_of ?m ''extra''"
    by (rule others) (simp add: scenario_closure_def)
  from wf ent run pers a b show ?thesis by blast
qed

section \<open>Unexpected keys\<close>

text \<open>
  Claim C8, evaluated. On a development host with a console, the combined reducer of
  \<^verbatim>\<open>{a: (s = 0, a) => s}\<close> is invoked twice with the state \<^verbatim>\<open>Map({a: 0, bogus: 1})\<close>: both
  invocations return the state, the first one enters \<^verbatim>\<open>bogus\<close> in the cache, and neither
  writes anything to the console.
\<close>

theorem unexpected_key_is_not_reported:
  "diagnostic dev_host \<and> console_error dev_host \<and>
   (\<exists>c w1. combineReducers dev_host (Object [(''a'', Fn keep)]) world0 = (Inr c, w1) \<and>
      sanityError c = None \<and> console w1 = [] \<and>
      (\<exists>c2 w2. combination dev_host c (IMap [(''a'', Num 0), (''bogus'', Num 1)]) INC w1 =
                  (Inr (IMap [(''a'', Num 0), (''bogus'', Num 1)]), c2, w2) \<and>
         console w2 = [] \<and> unexpectedKeyCache c2 = Some [''bogus''] \<and>
         (\<exists>c3 w3. combination dev_host c2 (IMap [(''a'', Num 0), (''bogus'', Num 1)]) INC w2 =
                  (Inr (IMap [(''a'', Num 0), (''bogus'', Num 1)]), c3, w3) \<and>
            console w3 = [])))"
  by (simp add: eval_defs dev_host_def world0_def keep_def INC_def)

section \<open>A state that is not an Immutable Map\<close>

text \<open>
  Claim C9, as stated, at the state \<^verbatim>\<open>null\<close> and a combined reducer without reducers: the
  one message written is the one about the store without a valid reducer, not the type
  mismatch; and the invocation ends with the TypeError of \<^verbatim>\<open>state.withMutations\<close>.
\<close>

theorem no_reducer_counterexample:
  "diagnostic dev_host \<and> console_error dev_host \<and> \<not> isMap Null \<and>
   (\<exists>c w1. combineReducers dev_host (Object []) world0 = (Inr c, w1) \<and> sanityError c = None \<and>
      combination dev_host c Null INC w1 =
        (Inl TypeError, c, w1\<lparr>console := console w1 @ [no_reducer_message]\<rparr>) \<and>
      no_reducer_message \<noteq> type_mismatch_message c Null INC)"
  by (simp add: eval_defs dev_host_def world0_def INC_def isMap_def no_reducer_message_def
      type_mismatch_message_def)

text \<open>
  Claim C9, amended. With the diagnostics on, a console, no sanity error and at least one
  reducer registered, an invocation on a state that is not an Immutable Map (\<^verbatim>\<open>null\<close>, a
  primitive or a data object) writes the type mismatch message, which names the class of
  the state and the registered names, once per invocation whatever happened before; the
  closure, its cache included, is as it was; no reducer is applied; and the invocation
  goes on to \<^verbatim>\<open>state.withMutations\<close>, which such a state does not have, so that it ends
  with a TypeError.
\<close>

theorem non_map_state_warns:
  assumes "diagnostic h" and "console_error h" and "sanityError c = None"
    and "finalReducers c \<noteq> []" and "\<not> isMap state" and "state \<noteq> Undefined"
  shows "combination h c state action w =
           (Inl TypeError, c, w\<lparr>console := console w @ [type_mismatch_message c state action]\<rparr>)"
  using assms
  by (cases state)
     (simp_all add: combination_def sanityError_truthy_def shape_warning_def
        getUnexpectedStateShapeWarningMessage_def entries_of_def
        type_mismatch_message_def withMutations_def warning_def isMap_def Let_def)

theorem non_map_state_warns_witness:
  \<open>diagnostic dev_host \<and> console_error dev_host \<and>
   sanityError (scenario_closure dev_host) = None \<and>
   finalReducers (scenario_closure dev_host) \<noteq> [] \<and> \<not> isMap (Obj []) \<and> Obj [] \<noteq> Undefined \<and>
   combination dev_host (scenario_closure dev_host) (Obj []) INC world0 =
     (Inl TypeError, scenario_closure dev_host,
      world0\<lparr>console := console world0 @
        [''The previous state received by the reducer has unexpected type of "Object". '' @
         ''Expected argument to be an Immutable Map with the following keys: "counter", "name"'']\<rparr>)\<close>
proof -
  have a: "diagnostic dev_host" by (simp add: diagnostic_def NODE_ENV_def dev_host_def)
  have b: "console_error dev_host" by (simp add: dev_host_def)
  have c: "sanityError (scenario_closure dev_host) = None" by (simp add: scenario_closure_def)
  have d: "finalReducers (scenario_closure dev_host) \<noteq> []" by (simp add: scenario_closure_def)
  have e: "\<not> isMap (Obj [])" by (simp add: isMap_def)
  have f: "Obj [] \<noteq> Undefined" by simp
  have msg: \<open>type_mismatch_message (scenario_closure dev_host) (Obj []) INC =
         ''The previous state received by the reducer has unexpected type of "Object". '' @
         ''Expected argument to be an Immutable Map with the following keys: "counter", "name"''\<close>
    by (simp add: type_mismatch_message_def scenario_closure_def INC_def get_prop_def
        ActionTypes_INIT_def class_name_def truthy_def)
  from non_map_state_warns [OF a b c d e f, of INC world0] msg a b c d e f
  show ?thesis by simp
qed

section \<open>What the construction throws\<close>




end
